theory Spec2Isabelle
  imports Main "HOL-Library.Sublist"
begin

section \<open>Strings\<close>

text \<open>
  A JavaScript string is a sequence of UTF-16 code units; a code unit is an integer from
  0 to \<open>0xFFFF\<close>, and a code point an integer from 0 to \<open>0x10FFFF\<close>. \<open>js\<close> writes a
  string of ASCII characters as its code units.
\<close>

type_synonym jsString = "int list"

definition js :: "string \<Rightarrow> jsString" where
  "js s = map of_char s"

text \<open>
  \<open>StringToCodePoints\<close> and \<open>CodePointsToString\<close> of the language specification: a
  leading surrogate followed by a trailing one is one code point, every other code unit
  is a code point by itself.
\<close>

definition isLeadingSurrogate :: "int \<Rightarrow> bool" where
  "isLeadingSurrogate c = (0xD800 \<le> c \<and> c \<le> 0xDBFF)"

definition isTrailingSurrogate :: "int \<Rightarrow> bool" where
  "isTrailingSurrogate c = (0xDC00 \<le> c \<and> c \<le> 0xDFFF)"

fun stringToCodePoints :: "jsString \<Rightarrow> int list" where
  "stringToCodePoints [] = []"
| "stringToCodePoints [c] = [c]"
| "stringToCodePoints (c # d # rest) =
     (if isLeadingSurrogate c \<and> isTrailingSurrogate d
      then ((c - 0xD800) * 0x400 + (d - 0xDC00) + 0x10000) # stringToCodePoints rest
      else c # stringToCodePoints (d # rest))"

definition utf16EncodeCodePoint :: "int \<Rightarrow> jsString" where
  "utf16EncodeCodePoint cp =
     (if cp \<le> 0xFFFF then [cp]
      else [(cp - 0x10000) div 0x400 + 0xD800, (cp - 0x10000) mod 0x400 + 0xDC00])"

definition codePointsToString :: "int list \<Rightarrow> jsString" where
  "codePointsToString cps = concat (map utf16EncodeCodePoint cps)"

text \<open>
  \<open>String.prototype.toLowerCase\<close>: the code points of the string, each replaced by its
  lower-case mapping, as a string again. The mapping of a code point is data of the
  Unicode Character Database (UnicodeData.txt and the locale-insensitive entries of
  SpecialCasing.txt, one of which depends on the code points around) and is a parameter
  \<open>lm\<close> of the model: \<open>lm preceding c following\<close> is the mapping of the code point
  \<open>c\<close> that stands between the code points \<open>preceding\<close> and \<open>following\<close>.
\<close>

type_synonym LowercaseMapping = "int list \<Rightarrow> int \<Rightarrow> int list \<Rightarrow> int list"

fun toLowercaseFrom :: "LowercaseMapping \<Rightarrow> int list \<Rightarrow> int list \<Rightarrow> int list" where
  "toLowercaseFrom lm preceding [] = []"
| "toLowercaseFrom lm preceding (c # following) =
     lm preceding c following @ toLowercaseFrom lm (preceding @ [c]) following"

definition toLowerCase :: "LowercaseMapping \<Rightarrow> jsString \<Rightarrow> jsString" where
  "toLowerCase lm s = codePointsToString (toLowercaseFrom lm [] (stringToCodePoints s))"

text \<open>
  \<open>s.includes(k)\<close>: \<open>k\<close> occurs in \<open>s\<close> as a contiguous run of code units, searched
  from the left.
\<close>

fun includesStr :: "jsString \<Rightarrow> jsString \<Rightarrow> bool" where
  "includesStr [] k = (k = [])"
| "includesStr (c # cs) k = (prefix k (c # cs) \<or> includesStr cs k)"

text \<open>
  The decimal digits of an integer, as a template literal prints a number that is an
  integer below \<open>10\<^sup>2\<^sup>1\<close> in absolute value.
\<close>

function showNat :: "nat \<Rightarrow> jsString" where
  "showNat n =
     (if n < 10 then [48 + int n]
      else showNat (n div 10) @ [48 + int (n mod 10)])"
  by pat_completeness auto
termination
  by (relation "measure (\<lambda>n. n)") auto

definition showInt :: "int \<Rightarrow> jsString" where
  "showInt i = (if i < 0 then 45 # showNat (nat (- i)) else showNat (nat i))"

section \<open>Data model (types.ts)\<close>

text \<open>
  The enum \<open>SubjectType\<close> of types.ts. At run time a member is its string value, which is
  what \<open>t.subject.toLowerCase()\<close> reads; \<open>subjectValue\<close> gives it.
\<close>

datatype SubjectType = MATH | LANGUAGE | SCIENCE | ART | OTHER

fun subjectValue :: "SubjectType \<Rightarrow> jsString" where
  "subjectValue MATH = js ''Math''"
| "subjectValue LANGUAGE = js ''Language''"
| "subjectValue SCIENCE = js ''Science''"
| "subjectValue ART = js ''Art''"
| "subjectValue OTHER = js ''Other''"

datatype TaskStatus = Pending | Active | Completed

text \<open>
  \<open>interface TaskStep\<close> and \<open>interface Task\<close>. The fields \<open>id\<close> and \<open>text\<close> are
  written \<open>stepId\<close>, \<open>stepText\<close> and \<open>taskId\<close>. A \<open>number\<close> is an
  \<open>int\<close>: the tool schemas declare the numbers \<open>INTEGER\<close>, and a JavaScript number
  holds every integer of a magnitude up to \<open>2\<^sup>5\<^sup>3\<close> exactly.
\<close>

record TaskStep =
  stepId :: jsString
  stepText :: jsString
  isCompleted :: bool

record Task =
  taskId :: jsString
  title :: jsString
  subject :: SubjectType
  estimatedMinutes :: int
  steps :: "TaskStep list"
  status :: TaskStatus
  createdAt :: int

section \<open>The command interpreter (processAgentCommand)\<close>

text \<open>
  A function call of the agent: the tool's name and its arguments. \<open>taskKeyword\<close> may be
  absent (\<open>None\<close>), which the code reads as the empty keyword
  (\<open>args.taskKeyword || ""\<close>); the two numbers are integers by the tool schemas.
\<close>

record Args =
  taskKeyword :: "jsString option"
  newMinutes :: int
  newPosition :: int

record FunctionCall =
  name :: jsString
  args :: Args

text \<open>\<open>Array.prototype.findIndex\<close>; \<open>None\<close> is the result \<open>-1\<close>.\<close>

fun findIndexBy :: "('a \<Rightarrow> bool) \<Rightarrow> 'a list \<Rightarrow> nat option" where
  "findIndexBy P [] = None"
| "findIndexBy P (x # xs) = (if P x then Some 0 else map_option Suc (findIndexBy P xs))"

definition lowerKeywordOf :: "LowercaseMapping \<Rightarrow> Args \<Rightarrow> jsString" where
  "lowerKeywordOf lm a = toLowerCase lm (case taskKeyword a of None \<Rightarrow> [] | Some k \<Rightarrow> k)"

definition matchesKeyword :: "LowercaseMapping \<Rightarrow> jsString \<Rightarrow> Task \<Rightarrow> bool" where
  "matchesKeyword lm lowerKeyword t =
     (includesStr (toLowerCase lm (title t)) lowerKeyword \<or>
      includesStr (toLowerCase lm (subjectValue (subject t))) lowerKeyword)"

definition findIndex :: "LowercaseMapping \<Rightarrow> jsString \<Rightarrow> Task list \<Rightarrow> nat option" where
  "findIndex lm lowerKeyword newTasks = findIndexBy (matchesKeyword lm lowerKeyword) newTasks"

text \<open>
  \<open>newTasks.splice(idx, 1)\<close> and \<open>newTasks.splice(targetIndex, 0, taskToMove)\<close>, for an
  index between 0 and the length of the list, which is all the code passes.
\<close>

definition spliceRemove :: "nat \<Rightarrow> 'a list \<Rightarrow> 'a list" where
  "spliceRemove idx xs = take idx xs @ drop (Suc idx) xs"

definition spliceInsert :: "nat \<Rightarrow> 'a \<Rightarrow> 'a list \<Rightarrow> 'a list" where
  "spliceInsert k x xs = take k xs @ x # drop k xs"

text \<open>The clamp of the reorderTask branch; the result is the index of insertion.\<close>

definition clampTarget :: "int \<Rightarrow> nat \<Rightarrow> nat" where
  "clampTarget newPos len =
     (let targetIndex = newPos - 1;
          targetIndex = (if targetIndex < 0 then 0 else targetIndex);
          targetIndex = (if targetIndex > int len then int len else targetIndex)
      in nat targetIndex)"

text \<open>The template literals of the response texts.\<close>

definition keywordText :: "Args \<Rightarrow> jsString" where
  "keywordText a = (case taskKeyword a of None \<Rightarrow> js ''undefined'' | Some k \<Rightarrow> k)"

definition notFoundText :: "Args \<Rightarrow> jsString" where
  "notFoundText a =
     js ''I couldn'' @ [0x27] @ js ''t find a task matching '' @ [0x22] @ keywordText a
       @ [0x22] @ js ''.''"

definition updatedText :: "Task \<Rightarrow> int \<Rightarrow> jsString" where
  "updatedText t m = js ''Updated '' @ title t @ js '' to '' @ showInt m @ js '' minutes.''"

definition removedText :: "Task \<Rightarrow> jsString" where
  "removedText t = js ''Removed '' @ title t @ js '' from your list.''"

definition movedText :: "Task \<Rightarrow> nat \<Rightarrow> jsString" where
  "movedText t targetIndex =
     js ''Moved '' @ title t @ js '' to position #'' @ showInt (int targetIndex + 1) @ js ''.''"

text \<open>The three variables of the loop over the function calls.\<close>

record AgentVars =
  responseText :: jsString
  newTasks :: "Task list"
  tasksModified :: bool

text \<open>One iteration of \<open>for (const call of functionCalls)\<close>.\<close>

definition applyCall :: "LowercaseMapping \<Rightarrow> AgentVars \<Rightarrow> FunctionCall \<Rightarrow> AgentVars" where
  "applyCall lm v call =
     (let a = args call; lowerKeyword = lowerKeywordOf lm a in
      if name call = js ''updateTaskTime'' then
        (case findIndex lm lowerKeyword (newTasks v) of
           Some idx \<Rightarrow>
             let t' = (newTasks v ! idx)\<lparr>estimatedMinutes := newMinutes a\<rparr> in
             \<lparr>responseText = updatedText t' (newMinutes a),
              newTasks = (newTasks v)[idx := t'],
              tasksModified = True\<rparr>
         | None \<Rightarrow> v\<lparr>responseText := notFoundText a\<rparr>)
      else if name call = js ''deleteTask'' then
        (case findIndex lm lowerKeyword (newTasks v) of
           Some idx \<Rightarrow>
             let removed = newTasks v ! idx in
             \<lparr>responseText = removedText removed,
              newTasks = spliceRemove idx (newTasks v),
              tasksModified = True\<rparr>
         | None \<Rightarrow> v\<lparr>responseText := notFoundText a\<rparr>)
      else if name call = js ''reorderTask'' then
        (case findIndex lm lowerKeyword (newTasks v) of
           Some idx \<Rightarrow>
             let taskToMove = newTasks v ! idx;
                 rest = spliceRemove idx (newTasks v);
                 targetIndex = clampTarget (newPosition a) (length rest) in
             \<lparr>responseText = movedText taskToMove targetIndex,
              newTasks = spliceInsert targetIndex taskToMove rest,
              tasksModified = True\<rparr>
         | None \<Rightarrow> v\<lparr>responseText := notFoundText a\<rparr>)
      else v)"

definition applyCalls :: "LowercaseMapping \<Rightarrow> AgentVars \<Rightarrow> FunctionCall list \<Rightarrow> AgentVars" where
  "applyCalls lm v calls = foldl (applyCall lm) v calls"

text \<open>
  What the external service answered: the call threw (\<open>ServiceError\<close>), or the first
  candidate carries an optional text part and the function calls of its parts.
\<close>

datatype AgentResponse = ServiceError | Candidate "jsString option" "FunctionCall list"

record AgentReply =
  replyText :: jsString
  updatedTasks :: "Task list option"

definition defaultText :: "jsString option \<Rightarrow> jsString" where
  "defaultText textPart =
     (case textPart of
        None \<Rightarrow> js ''I'' @ [0x27] @ js ''ve updated your plan!''
      | Some t \<Rightarrow> if t = [] then js ''I'' @ [0x27] @ js ''ve updated your plan!'' else t)"

definition processAgentCommand ::
  "LowercaseMapping \<Rightarrow> AgentResponse \<Rightarrow> Task list \<Rightarrow> AgentReply" where
  "processAgentCommand lm response currentTasks =
     (case response of
        ServiceError \<Rightarrow>
          \<lparr>replyText = js ''Sorry, I had trouble connecting to my brain! Try again?'',
           updatedTasks = None\<rparr>
      | Candidate textPart functionCalls \<Rightarrow>
          let v = applyCalls lm
                    \<lparr>responseText = defaultText textPart,
                     newTasks = currentTasks,
                     tasksModified = False\<rparr> functionCalls
          in \<lparr>replyText = responseText v,
              updatedTasks = (if tasksModified v then Some (newTasks v) else None)\<rparr>)"

text \<open>
  The caller (handleSend of CompanionChat.tsx): the task list is replaced only when the
  reply carries one.
\<close>

definition handleSend :: "LowercaseMapping \<Rightarrow> AgentResponse \<Rightarrow> Task list \<Rightarrow> Task list" where
  "handleSend lm response tasks =
     (case updatedTasks (processAgentCommand lm response tasks) of
        Some ts \<Rightarrow> ts
      | None \<Rightarrow> tasks)"

section \<open>Step generation (generateStepsForTask)\<close>

text \<open>
  \<open>cleanJsonString\<close>: every match of the pattern \<open>```json\n?|```\<close> is removed, from the
  left, and the result is trimmed at both ends of the white space and line terminators
  of the language.
\<close>

definition fence :: jsString where
  "fence = replicate 3 0x60"

function stripFences :: "jsString \<Rightarrow> jsString" where
  "stripFences [] = []"
| "stripFences (c # cs) =
     (if prefix (fence @ js ''json'' @ [0x0A]) (c # cs) then stripFences (drop 8 (c # cs))
      else if prefix (fence @ js ''json'') (c # cs) then stripFences (drop 7 (c # cs))
      else if prefix fence (c # cs) then stripFences (drop 3 (c # cs))
      else c # stripFences cs)"
  by pat_completeness auto
termination
  by (relation "measure length") auto

definition isSpace :: "int \<Rightarrow> bool" where
  "isSpace c =
     ((0x09 \<le> c \<and> c \<le> 0x0D) \<or> c = 0x20 \<or> c = 0xA0 \<or> c = 0x1680 \<or>
      (0x2000 \<le> c \<and> c \<le> 0x200A) \<or> c = 0x2028 \<or> c = 0x2029 \<or> c = 0x202F \<or>
      c = 0x205F \<or> c = 0x3000 \<or> c = 0xFEFF)"

definition trim :: "jsString \<Rightarrow> jsString" where
  "trim s = rev (dropWhile isSpace (rev (dropWhile isSpace s)))"

definition cleanJsonString :: "jsString \<Rightarrow> jsString" where
  "cleanJsonString str = trim (stripFences str)"

text \<open>
  What the external call did: it threw (\<open>CallFailed\<close>), or it returned a response whose
  \<open>text\<close> may be absent. \<open>JSON.parse\<close> is a parameter \<open>parse\<close>; \<open>None\<close> is its
  SyntaxError, which the \<open>catch\<close> of the function receives like a failed call.
\<close>

datatype ServiceOutcome = CallFailed | Responded "jsString option"

definition fallbackSteps :: "jsString list" where
  "fallbackSteps =
     [js ''Prepare materials'', js ''Focus on the first problem'',
      js ''Continue through the rest'', js ''Review work'']"

definition generateStepsForTask ::
  "(jsString \<Rightarrow> jsString list option) \<Rightarrow> ServiceOutcome \<Rightarrow> jsString list" where
  "generateStepsForTask parse outcome =
     (case outcome of
        CallFailed \<Rightarrow> fallbackSteps
      | Responded None \<Rightarrow> [js ''Start task'', js ''Complete task'']
      | Responded (Some t) \<Rightarrow>
          if t = [] then [js ''Start task'', js ''Complete task'']
          else (case parse (cleanJsonString t) of
                  None \<Rightarrow> fallbackSteps
                | Some parsed \<Rightarrow> parsed))"

text \<open>
  \<open>steps.map(s => ({ id: crypto.randomUUID(), text: s, isCompleted: false }))\<close>; the
  identifiers drawn are a parameter: \<open>uuid i\<close> is the one drawn for the step at index
  \<open>i\<close>.
\<close>

definition makeSteps :: "(nat \<Rightarrow> jsString) \<Rightarrow> jsString list \<Rightarrow> TaskStep list" where
  "makeSteps uuid strs =
     map (\<lambda>(i, s). \<lparr>stepId = uuid i, stepText = s, isCompleted = False\<rparr>) (enumerate 0 strs)"

section \<open>The focus session (FocusMode.tsx)\<close>

text \<open>
  The component: its prop \<open>tasks\<close>, its four state variables and the ref
  \<open>prevTaskIdRef\<close>.
\<close>

record FocusMode =
  tasks :: "Task list"
  timeLeft :: int
  isPlaying :: bool
  totalTime :: int
  localSteps :: "TaskStep list"
  prevTaskIdRef :: "jsString option"

definition pendingTasks :: "Task list \<Rightarrow> Task list" where
  "pendingTasks ts = filter (\<lambda>t. status t \<noteq> Completed) ts"

definition currentTask :: "Task list \<Rightarrow> Task option" where
  "currentTask ts = (case pendingTasks ts of [] \<Rightarrow> None | t # _ \<Rightarrow> Some t)"

text \<open>The initial values of the \<open>useState\<close> and \<open>useRef\<close> calls.\<close>

definition initialState :: "Task list \<Rightarrow> FocusMode" where
  "initialState ts =
     \<lparr>tasks = ts,
      timeLeft = (case currentTask ts of None \<Rightarrow> 0 | Some t \<Rightarrow> estimatedMinutes t * 60),
      isPlaying = True,
      totalTime = (case currentTask ts of None \<Rightarrow> 0 | Some t \<Rightarrow> estimatedMinutes t * 60),
      localSteps = (case currentTask ts of None \<Rightarrow> [] | Some t \<Rightarrow> steps t),
      prevTaskIdRef = None\<rparr>"

text \<open>
  The task-change effect (dependency \<open>currentTask\<close>): the state it leaves, and the task
  for which it calls \<open>generateStepsForTask\<close>, if it does.
\<close>

definition taskEffect :: "FocusMode \<Rightarrow> FocusMode" where
  "taskEffect s =
     (case currentTask (tasks s) of
        None \<Rightarrow> s
      | Some t \<Rightarrow>
          if prevTaskIdRef s \<noteq> Some (taskId t) then
            s\<lparr>totalTime := estimatedMinutes t * 60,
              timeLeft := estimatedMinutes t * 60,
              localSteps := steps t,
              isPlaying := True,
              prevTaskIdRef := Some (taskId t)\<rparr>
          else s)"

definition stepRequest :: "FocusMode \<Rightarrow> Task option" where
  "stepRequest s =
     (case currentTask (tasks s) of
        None \<Rightarrow> None
      | Some t \<Rightarrow>
          if prevTaskIdRef s \<noteq> Some (taskId t) \<and> length (steps t) = 0 then Some t else None)"

text \<open>
  The timer effect (dependencies \<open>isPlaying\<close>, \<open>timeLeft\<close>, \<open>currentTask\<close>). It reads the
  values of the render that scheduled it (\<open>snap\<close>): either it sets the interval, or it
  calls \<open>setIsPlaying(false)\<close>, or neither.
\<close>

definition intervalSet :: "FocusMode \<Rightarrow> bool" where
  "intervalSet snap = (isPlaying snap \<and> timeLeft snap > 0 \<and> currentTask (tasks snap) \<noteq> None)"

definition timerUpdate :: "FocusMode \<Rightarrow> FocusMode \<Rightarrow> FocusMode" where
  "timerUpdate snap s =
     (if intervalSet snap then s
      else if timeLeft snap = 0 \<and> currentTask (tasks snap) \<noteq> None then s\<lparr>isPlaying := False\<rparr>
      else s)"

definition timerEffect :: "FocusMode \<Rightarrow> FocusMode" where
  "timerEffect s = timerUpdate s s"

text \<open>
  A render in which \<open>currentTask\<close> changed (the mount included): both effects run on the
  values of that render, their state updates are applied in order, and the timer effect
  runs again on the state they leave.
\<close>

definition commit :: "FocusMode \<Rightarrow> FocusMode" where
  "commit s = timerUpdate s (taskEffect s)"

definition rerender :: "FocusMode \<Rightarrow> FocusMode" where
  "rerender s = timerEffect (commit s)"

definition mount :: "Task list \<Rightarrow> FocusMode" where
  "mount ts = rerender (initialState ts)"

text \<open>
  The interval's callback \<open>setTimeLeft(prev => prev - 1)\<close>, followed by the timer effect.
  Where no interval is set no tick arrives, and the state stays as it is.
\<close>

definition tick :: "FocusMode \<Rightarrow> FocusMode" where
  "tick s = (if intervalSet s then timerEffect (s\<lparr>timeLeft := timeLeft s - 1\<rparr>) else s)"

fun ticks :: "nat \<Rightarrow> FocusMode \<Rightarrow> FocusMode" where
  "ticks 0 s = s"
| "ticks (Suc n) s = ticks n (tick s)"

text \<open>The play/pause button.\<close>

definition togglePlaying :: "FocusMode \<Rightarrow> FocusMode" where
  "togglePlaying s = timerEffect (s\<lparr>isPlaying := \<not> isPlaying s\<rparr>)"

text \<open>\<open>handleCompleteTask\<close> of App.tsx and the Done button of the active task.\<close>

definition handleCompleteTask :: "jsString \<Rightarrow> Task list \<Rightarrow> Task list" where
  "handleCompleteTask tid ts = map (\<lambda>t. if taskId t = tid then t\<lparr>status := Completed\<rparr> else t) ts"

definition completeCurrent :: "FocusMode \<Rightarrow> FocusMode" where
  "completeCurrent s =
     (case currentTask (tasks s) of
        None \<Rightarrow> s
      | Some t \<Rightarrow> rerender (s\<lparr>tasks := handleCompleteTask (taskId t) (tasks s)\<rparr>))"

definition toggleStep :: "jsString \<Rightarrow> FocusMode \<Rightarrow> FocusMode" where
  "toggleStep sid s =
     s\<lparr>localSteps :=
         map (\<lambda>st. if stepId st = sid then st\<lparr>isCompleted := \<not> isCompleted st\<rparr> else st)
           (localSteps s)\<rparr>"

text \<open>
  The \<open>then\<close> callback of the step request, run when the generated steps arrive.
\<close>

definition stepsArrived ::
  "(nat \<Rightarrow> jsString) \<Rightarrow> jsString list \<Rightarrow> FocusMode \<Rightarrow> FocusMode" where
  "stepsArrived uuid strs s = s\<lparr>localSteps := makeSteps uuid strs\<rparr>"

text \<open>
  The quick-add path of Dashboard.tsx installs generated steps in the task list: only the
  task whose id is the one that asked for them receives them.
\<close>

definition quickStepsArrived ::
  "jsString \<Rightarrow> (nat \<Rightarrow> jsString) \<Rightarrow> jsString list \<Rightarrow> Task list \<Rightarrow> Task list" where
  "quickStepsArrived newTaskId uuid strs prev =
     map (\<lambda>t. if taskId t = newTaskId then t\<lparr>steps := makeSteps uuid strs\<rparr> else t) prev"

section \<open>Notions of the specification\<close>

text \<open>
  Two code units are the same letter up to case. The pairs of a capital and its small
  letter are those of the Basic Latin and Latin-1 Supplement blocks: \<open>A\<close> to \<open>Z\<close>, and
  the capitals from \<open>0xC0\<close> to \<open>0xDE\<close> but the multiplication sign \<open>0xD7\<close>; the small
  letter stands 32 places after its capital.
\<close>

definition isCapital :: "int \<Rightarrow> bool" where
  "isCapital c = ((0x41 \<le> c \<and> c \<le> 0x5A) \<or> (0xC0 \<le> c \<and> c \<le> 0xDE \<and> c \<noteq> 0xD7))"

definition sameLetter :: "int \<Rightarrow> int \<Rightarrow> bool" where
  "sameLetter c d = (c = d \<or> (isCapital c \<and> d = c + 32) \<or> (isCapital d \<and> c = d + 32))"

text \<open>
  A string contains a keyword as a case-insensitive substring: some contiguous part of
  it is the keyword, letter by letter, up to case.
\<close>

definition containsIgnoringCase :: "jsString \<Rightarrow> jsString \<Rightarrow> bool" where
  "containsIgnoringCase s k = (\<exists>p u q. s = p @ u @ q \<and> list_all2 sameLetter u k)"

definition taskContains :: "Task \<Rightarrow> jsString \<Rightarrow> bool" where
  "taskContains t k =
     (containsIgnoringCase (title t) k \<or> containsIgnoringCase (subjectValue (subject t)) k)"

text \<open>
  The lower-cased title or subject of a task contains the lower-cased keyword as a
  substring.
\<close>

definition taskContainsLowered :: "LowercaseMapping \<Rightarrow> Task \<Rightarrow> jsString \<Rightarrow> bool" where
  "taskContainsLowered lm t k =
     (sublist (toLowerCase lm k) (toLowerCase lm (title t)) \<or>
      sublist (toLowerCase lm k) (toLowerCase lm (subjectValue (subject t))))"

text \<open>
  A string of the Basic Latin and Latin-1 Supplement blocks, and the rows of the
  Unicode Character Database for these blocks: a capital maps to its small letter, every
  other code point to itself, whatever stands around it.
\<close>

definition latin1 :: "jsString \<Rightarrow> bool" where
  "latin1 s = (\<forall>c\<in>set s. 0 \<le> c \<and> c < 0x100)"

definition latin1Lower :: "int \<Rightarrow> int" where
  "latin1Lower c = (if isCapital c then c + 32 else c)"

definition latin1Rows :: "LowercaseMapping \<Rightarrow> bool" where
  "latin1Rows lm =
     (\<forall>preceding c following.
        0 \<le> c \<and> c < 0x100 \<longrightarrow> lm preceding c following = [latin1Lower c])"

text \<open>A mutation operation is a call of one of the three tools.\<close>

definition isMutation :: "FunctionCall \<Rightarrow> bool" where
  "isMutation c =
     (name c = js ''updateTaskTime'' \<or> name c = js ''deleteTask'' \<or>
      name c = js ''reorderTask'')"

text \<open>The keyword of a call resolves to no task of a list.\<close>

definition unresolved :: "LowercaseMapping \<Rightarrow> FunctionCall \<Rightarrow> Task list \<Rightarrow> bool" where
  "unresolved lm c ts = (findIndex lm (lowerKeywordOf lm (args c)) ts = None)"

definition positiveMinutes :: "Task list \<Rightarrow> bool" where
  "positiveMinutes ts = (\<forall>t\<in>set ts. 0 < estimatedMinutes t)"

definition positiveUpdates :: "FunctionCall list \<Rightarrow> bool" where
  "positiveUpdates calls =
     (\<forall>c\<in>set calls. name c = js ''updateTaskTime'' \<longrightarrow> 0 < newMinutes (args c))"

text \<open>The countdown has expired: it stands at zero and no longer runs.\<close>

definition expired :: "FocusMode \<Rightarrow> bool" where
  "expired s = (timeLeft s = 0 \<and> \<not> isPlaying s \<and> currentTask (tasks s) \<noteq> None)"

section \<open>Example data\<close>

text \<open>
  Rows of the Unicode Character Database, for the examples: the Basic Latin and Latin-1
  Supplement blocks and the capitals of the Greek alphabet. The capital sigma maps to
  the final small sigma where the condition \<open>Final_Sigma\<close> of SpecialCasing.txt holds:
  a cased letter stands before it, possibly with case-ignorable code points in between,
  and none stands after it in that way.
\<close>

definition exampleCased :: "int \<Rightarrow> bool" where
  "exampleCased c =
     ((0x41 \<le> c \<and> c \<le> 0x5A) \<or> (0x61 \<le> c \<and> c \<le> 0x7A) \<or> c = 0xAA \<or> c = 0xB5 \<or>
      c = 0xBA \<or> (0xC0 \<le> c \<and> c \<le> 0xFF \<and> c \<noteq> 0xD7 \<and> c \<noteq> 0xF7) \<or>
      (0x391 \<le> c \<and> c \<le> 0x3A9 \<and> c \<noteq> 0x3A2) \<or> (0x3B1 \<le> c \<and> c \<le> 0x3C9))"

definition exampleCaseIgnorable :: "int \<Rightarrow> bool" where
  "exampleCaseIgnorable c =
     (c = 0x27 \<or> c = 0x2E \<or> c = 0x3A \<or> c = 0x5E \<or> c = 0x60 \<or> c = 0xA8 \<or> c = 0xAD \<or>
      c = 0xAF \<or> c = 0xB4 \<or> c = 0xB7 \<or> c = 0xB8)"

fun casedAhead :: "int list \<Rightarrow> bool" where
  "casedAhead [] = False"
| "casedAhead (c # cs) = (exampleCased c \<or> (exampleCaseIgnorable c \<and> casedAhead cs))"

definition exampleMapping :: LowercaseMapping where
  "exampleMapping preceding c following =
     (if c = 0x3A3 \<and> casedAhead (rev preceding) \<and> \<not> casedAhead following then [0x3C2]
      else if isCapital c \<or> (0x391 \<le> c \<and> c \<le> 0x3A9 \<and> c \<noteq> 0x3A2) then [c + 32]
      else [c])"

text \<open>
  A task whose title is the Greek word for road in capitals (omicron, delta, omicron,
  sigma), and the keyword that is the capital sigma.
\<close>

definition greekTask :: Task where
  "greekTask =
     \<lparr>taskId = js ''g1'', title = [0x39F, 0x394, 0x39F, 0x3A3], subject = OTHER,
      estimatedMinutes = 15, steps = [], status = Pending, createdAt = 0\<rparr>"

definition greekCall :: FunctionCall where
  "greekCall =
     \<lparr>name = js ''deleteTask'',
      args = \<lparr>taskKeyword = Some [0x3A3], newMinutes = 0, newPosition = 0\<rparr>\<rparr>"

definition exampleTask :: "string \<Rightarrow> string \<Rightarrow> SubjectType \<Rightarrow> int \<Rightarrow> TaskStep list \<Rightarrow> Task" where
  "exampleTask i t sj m sts =
     \<lparr>taskId = js i, title = js t, subject = sj, estimatedMinutes = m, steps = sts,
      status = Pending, createdAt = 0\<rparr>"

definition exampleTasks :: "Task list" where
  "exampleTasks =
     [exampleTask ''t1'' ''Read chapter 4'' LANGUAGE 10 [],
      exampleTask ''t2'' ''Worksheet p. 12'' MATH 20 [],
      exampleTask ''t3'' ''Math of pendulums'' SCIENCE 5 []]"

definition toolCall :: "string \<Rightarrow> string \<Rightarrow> int \<Rightarrow> int \<Rightarrow> FunctionCall" where
  "toolCall n k m p =
     \<lparr>name = js n, args = \<lparr>taskKeyword = Some (js k), newMinutes = m, newPosition = p\<rparr>\<rparr>"

definition exampleStep :: "string \<Rightarrow> string \<Rightarrow> bool \<Rightarrow> TaskStep" where
  "exampleStep i t d = \<lparr>stepId = js i, stepText = js t, isCompleted = d\<rparr>"

text \<open>
  A session of two tasks: the first has no steps yet, the second has its own.
\<close>

definition focusTasks :: "Task list" where
  "focusTasks =
     [exampleTask ''a'' ''Essay draft'' LANGUAGE 10 [],
      exampleTask ''b'' ''Fractions'' MATH 5 [exampleStep ''b1'' ''Do exercise 1'' False]]"

definition exampleUuid :: "nat \<Rightarrow> jsString" where
  "exampleUuid i = js ''u'' @ showNat i"

text \<open>The loop variables before the first call, over the example list.\<close>

definition exampleVars :: AgentVars where
  "exampleVars = \<lparr>responseText = [], newTasks = exampleTasks, tasksModified = False\<rparr>"

text \<open>The loop variables over the empty list.\<close>

definition emptyVars :: AgentVars where
  "emptyVars = \<lparr>responseText = [], newTasks = [], tasksModified = False\<rparr>"

text \<open>A parser that accepts only the empty array.\<close>

definition exampleParse :: "jsString \<Rightarrow> jsString list option" where
  "exampleParse s = (if s = js ''[]'' then Some [] else None)"

text \<open>
  Sessions over \<open>focusTasks\<close>: two seconds before the end of the first task, and after
  the first task was marked done.
\<close>

definition runningSession :: FocusMode where
  "runningSession = (mount focusTasks)\<lparr>timeLeft := 2\<rparr>"

definition steppedSession :: FocusMode where
  "steppedSession = completeCurrent (mount focusTasks)"

section \<open>Strings and target resolution\<close>

lemma js_eq_iff: "js a = js b \<longleftrightarrow> a = b"
  unfolding js_def by (simp add: inj_map_eq_map inj_of_char)

lemma includesStr_sublist: "includesStr s k \<longleftrightarrow> sublist k s"
  by (induction s) (simp_all add: sublist_Cons_right)

lemma toLowerCase_Nil: "toLowerCase lm [] = []"
  by (simp add: toLowerCase_def codePointsToString_def)

lemma matchesKeyword_lowered:
  "matchesKeyword lm (toLowerCase lm k) t \<longleftrightarrow> taskContainsLowered lm t k"
  by (simp add: matchesKeyword_def taskContainsLowered_def includesStr_sublist)

lemma findIndexBy_None: "findIndexBy P xs = None \<longleftrightarrow> (\<forall>x\<in>set xs. \<not> P x)"
  by (induction xs) auto

lemma findIndexBy_Some:
  "findIndexBy P xs = Some i \<longleftrightarrow> i < length xs \<and> P (xs ! i) \<and> (\<forall>j<i. \<not> P (xs ! j))"
proof (induction xs arbitrary: i)
  case Nil
  then show ?case by simp
next
  case (Cons x xs)
  show ?case
  proof (cases "P x")
    case True
    then show ?thesis by (cases i) auto
  next
    case False
    show ?thesis
    proof (cases i)
      case 0
      with False show ?thesis by auto
    next
      case (Suc m)
      have "(\<forall>j<Suc m. \<not> P ((x # xs) ! j)) \<longleftrightarrow> (\<forall>j<m. \<not> P (xs ! j))"
        using False by (auto simp: less_Suc_eq_0_disj)
      with False Suc Cons.IH [of m] show ?thesis by auto
    qed
  qed
qed

lemma findIndexBy_cong:
  "(\<And>x. x \<in> set xs \<Longrightarrow> P x = Q x) \<Longrightarrow> findIndexBy P xs = findIndexBy Q xs"
  by (induction xs) auto

lemma findIndex_less: "findIndex lm kw ts = Some i \<Longrightarrow> i < length ts"
  by (simp add: findIndex_def findIndexBy_Some)

subsection \<open>Lower case in the Latin-1 range\<close>

lemma latin1_Cons: "latin1 (c # s) \<longleftrightarrow> 0 \<le> c \<and> c < 0x100 \<and> latin1 s"
  by (auto simp: latin1_def)

lemma latin1_append: "latin1 (a @ b) \<longleftrightarrow> latin1 a \<and> latin1 b"
  by (auto simp: latin1_def)

lemma stringToCodePoints_latin1: "latin1 s \<Longrightarrow> stringToCodePoints s = s"
  by (induction s rule: stringToCodePoints.induct)
    (auto simp: latin1_Cons isLeadingSurrogate_def)

lemma toLowercaseFrom_latin1:
  "latin1Rows lm \<Longrightarrow> latin1 s \<Longrightarrow> toLowercaseFrom lm preceding s = map latin1Lower s"
  by (induction s arbitrary: preceding) (auto simp: latin1_Cons latin1Rows_def)

lemma latin1Lower_bounds: "0 \<le> c \<Longrightarrow> c < 0x100 \<Longrightarrow> 0 \<le> latin1Lower c \<and> latin1Lower c < 0x100"
  by (auto simp: latin1Lower_def isCapital_def)

lemma codePointsToString_latin1: "latin1 s \<Longrightarrow> codePointsToString s = s"
  by (induction s) (auto simp: codePointsToString_def utf16EncodeCodePoint_def latin1_Cons)

lemma latin1_map_lower: "latin1 s \<Longrightarrow> latin1 (map latin1Lower s)"
  using latin1Lower_bounds by (auto simp: latin1_def)

lemma toLowerCase_latin1:
  "latin1Rows lm \<Longrightarrow> latin1 s \<Longrightarrow> toLowerCase lm s = map latin1Lower s"
  by (simp add: toLowerCase_def stringToCodePoints_latin1 toLowercaseFrom_latin1
      codePointsToString_latin1 latin1_map_lower)

lemma latin1Lower_eq_iff:
  "0 \<le> c \<Longrightarrow> c < 0x100 \<Longrightarrow> 0 \<le> d \<Longrightarrow> d < 0x100 \<Longrightarrow>
   latin1Lower c = latin1Lower d \<longleftrightarrow> sameLetter c d"
  unfolding latin1Lower_def sameLetter_def isCapital_def by auto

lemma map_latin1Lower_eq_iff:
  "latin1 u \<Longrightarrow> latin1 k \<Longrightarrow>
   map latin1Lower u = map latin1Lower k \<longleftrightarrow> list_all2 sameLetter u k"
proof (induction u arbitrary: k)
  case Nil
  then show ?case by auto
next
  case (Cons c u)
  show ?case
  proof (cases k)
    case Nil
    then show ?thesis by simp
  next
    case (Cons d k')
    with Cons.prems Cons.IH [of k'] show ?thesis
      by (simp add: latin1_Cons latin1Lower_eq_iff)
  qed
qed

lemma map_eq_sandwich:
  "map f s = p' @ k' @ q' \<Longrightarrow> \<exists>p u q. s = p @ u @ q \<and> map f u = k'"
  by (metis append_eq_map_conv)

lemma includes_lower_iff:
  assumes "latin1Rows lm" and "latin1 s" and "latin1 k"
  shows "includesStr (toLowerCase lm s) (toLowerCase lm k) \<longleftrightarrow> containsIgnoringCase s k"
proof
  assume "includesStr (toLowerCase lm s) (toLowerCase lm k)"
  then obtain p' q' where "map latin1Lower s = p' @ map latin1Lower k @ q'"
    using assms by (auto simp: includesStr_sublist sublist_def toLowerCase_latin1)
  from map_eq_sandwich [OF this] obtain p u q
    where s: "s = p @ u @ q" and u: "map latin1Lower u = map latin1Lower k"
    by blast
  from s assms(2) have "latin1 u"
    by (simp add: latin1_append)
  with u assms(3) have "list_all2 sameLetter u k"
    by (simp add: map_latin1Lower_eq_iff)
  with s show "containsIgnoringCase s k"
    by (auto simp: containsIgnoringCase_def)
next
  assume "containsIgnoringCase s k"
  then obtain p u q where s: "s = p @ u @ q" and u: "list_all2 sameLetter u k"
    by (auto simp: containsIgnoringCase_def)
  from s assms(2) have "latin1 u"
    by (simp add: latin1_append)
  with u assms(3) have "map latin1Lower u = map latin1Lower k"
    by (simp add: map_latin1Lower_eq_iff)
  with s have "map latin1Lower s = map latin1Lower p @ map latin1Lower k @ map latin1Lower q"
    by simp
  then have "sublist (map latin1Lower k) (map latin1Lower s)"
    by (simp only: sublist_appendI)
  then show "includesStr (toLowerCase lm s) (toLowerCase lm k)"
    using assms by (simp add: includesStr_sublist toLowerCase_latin1)
qed

lemma latin1_subjectValue: "latin1 (subjectValue sj)"
  by (cases sj) (simp_all add: latin1_def js_def)

lemma matchesKeyword_iff:
  "latin1Rows lm \<Longrightarrow> latin1 k \<Longrightarrow> latin1 (title t) \<Longrightarrow>
   matchesKeyword lm (toLowerCase lm k) t \<longleftrightarrow> taskContains t k"
  by (simp add: matchesKeyword_def taskContains_def includes_lower_iff latin1_subjectValue)

text \<open>
  C8, as the code has it. Target resolution selects the first task in list order whose
  lower-cased title or subject contains the lower-cased keyword as a substring: the
  index found is that of such a task, no task before it is one, and no index is found
  exactly when the list has none. For a keyword and titles of the Basic Latin and
  Latin-1 Supplement blocks, under the rows of the Unicode Character Database for these
  blocks, such a task is one whose title or subject contains the keyword as a
  case-insensitive substring.
\<close>

theorem findIndex_first_match:
  assumes "taskKeyword a = Some k"
  shows "(findIndex lm (lowerKeywordOf lm a) ts = None \<longleftrightarrow>
            (\<forall>t\<in>set ts. \<not> taskContainsLowered lm t k)) \<and>
         (findIndex lm (lowerKeywordOf lm a) ts = Some i \<longleftrightarrow>
            i < length ts \<and> taskContainsLowered lm (ts ! i) k \<and>
            (\<forall>j<i. \<not> taskContainsLowered lm (ts ! j) k)) \<and>
         (latin1Rows lm \<and> latin1 k \<and> (\<forall>t\<in>set ts. latin1 (title t)) \<longrightarrow>
            (findIndex lm (lowerKeywordOf lm a) ts = None \<longleftrightarrow>
               (\<forall>t\<in>set ts. \<not> taskContains t k)) \<and>
            (findIndex lm (lowerKeywordOf lm a) ts = Some i \<longleftrightarrow>
               i < length ts \<and> taskContains (ts ! i) k \<and>
               (\<forall>j<i. \<not> taskContains (ts ! j) k)))"
proof -
  have kw: "lowerKeywordOf lm a = toLowerCase lm k"
    using assms by (simp add: lowerKeywordOf_def)
  have lowered: "(findIndex lm (lowerKeywordOf lm a) ts = None \<longleftrightarrow>
            (\<forall>t\<in>set ts. \<not> taskContainsLowered lm t k)) \<and>
         (findIndex lm (lowerKeywordOf lm a) ts = Some i \<longleftrightarrow>
            i < length ts \<and> taskContainsLowered lm (ts ! i) k \<and>
            (\<forall>j<i. \<not> taskContainsLowered lm (ts ! j) k))"
    unfolding kw findIndex_def findIndexBy_None findIndexBy_Some matchesKeyword_lowered
    by simp
  have insensitive: "(findIndex lm (lowerKeywordOf lm a) ts = None \<longleftrightarrow>
               (\<forall>t\<in>set ts. \<not> taskContains t k)) \<and>
            (findIndex lm (lowerKeywordOf lm a) ts = Some i \<longleftrightarrow>
               i < length ts \<and> taskContains (ts ! i) k \<and>
               (\<forall>j<i. \<not> taskContains (ts ! j) k))"
    if rows: "latin1Rows lm" and k: "latin1 k" and ts: "\<forall>t\<in>set ts. latin1 (title t)"
  proof -
    have "findIndexBy (matchesKeyword lm (toLowerCase lm k)) ts =
        findIndexBy (\<lambda>t. taskContains t k) ts"
      using rows k ts by (intro findIndexBy_cong) (simp add: matchesKeyword_iff)
    then show ?thesis
      unfolding kw findIndex_def by (simp add: findIndexBy_None findIndexBy_Some)
  qed
  from lowered insensitive show ?thesis
    by blast
qed

theorem findIndex_first_match_witness:
  "taskKeyword (args (toolCall ''deleteTask'' ''MATH'' 0 0)) = Some (js ''MATH'') \<and>
   latin1Rows exampleMapping \<and> latin1 (js ''MATH'') \<and>
   latin1 (title (exampleTasks ! 0)) \<and> latin1 (title (exampleTasks ! 1)) \<and>
   latin1 (title (exampleTasks ! 2)) \<and>
   findIndex exampleMapping
     (lowerKeywordOf exampleMapping (args (toolCall ''deleteTask'' ''MATH'' 0 0))) exampleTasks =
     Some 1 \<and>
   taskContainsLowered exampleMapping (exampleTasks ! 1) (js ''MATH'') \<and>
   taskContains (exampleTasks ! 1) (js ''MATH'') \<and>
   \<not> taskContains (exampleTasks ! 0) (js ''MATH'') \<and>
   taskKeyword (args (toolCall ''deleteTask'' ''piano'' 0 0)) = Some (js ''piano'') \<and>
   latin1 (js ''piano'') \<and>
   findIndex exampleMapping
     (lowerKeywordOf exampleMapping (args (toolCall ''deleteTask'' ''piano'' 0 0))) exampleTasks =
     None \<and>
   \<not> taskContains (exampleTasks ! 1) (js ''piano'')"
proof -
  let ?a = "args (toolCall ''deleteTask'' ''MATH'' 0 0)"
  let ?b = "args (toolCall ''deleteTask'' ''piano'' 0 0)"
  have k: "taskKeyword ?a = Some (js ''MATH'')"
    by (simp add: toolCall_def)
  have kb: "taskKeyword ?b = Some (js ''piano'')"
    by (simp add: toolCall_def)
  have rows: "latin1Rows exampleMapping"
    unfolding latin1Rows_def exampleMapping_def latin1Lower_def by auto
  have lk: "latin1 (js ''MATH'')" "latin1 (js ''piano'')"
    by (simp_all add: latin1_def js_def)
  have lt: "latin1 (title (exampleTasks ! 0))" "latin1 (title (exampleTasks ! 1))"
    "latin1 (title (exampleTasks ! 2))"
    by (simp_all add: exampleTasks_def exampleTask_def latin1_def js_def)
  then have all: "\<forall>t\<in>set exampleTasks. latin1 (title t)"
    by (simp add: exampleTasks_def)
  have e: "findIndex exampleMapping (lowerKeywordOf exampleMapping ?a) exampleTasks = Some 1"
    by code_simp
  have eb: "findIndex exampleMapping (lowerKeywordOf exampleMapping ?b) exampleTasks = None"
    by code_simp
  have mem: "exampleTasks ! 1 \<in> set exampleTasks"
    by (simp add: exampleTasks_def)
  note t = findIndex_first_match [OF k, of exampleMapping exampleTasks 1]
  from t e have low: "taskContainsLowered exampleMapping (exampleTasks ! 1) (js ''MATH'')"
    by blast
  from t e rows lk(1) all
  have "taskContains (exampleTasks ! 1) (js ''MATH'') \<and>
      (\<forall>j<1. \<not> taskContains (exampleTasks ! j) (js ''MATH''))"
    by blast
  then have ins: "taskContains (exampleTasks ! 1) (js ''MATH'')"
    "\<not> taskContains (exampleTasks ! 0) (js ''MATH'')"
    by simp_all
  from findIndex_first_match [OF kb, of exampleMapping exampleTasks 0] eb rows lk(2) all
  have "\<forall>t\<in>set exampleTasks. \<not> taskContains t (js ''piano'')"
    by blast
  with mem have "\<not> taskContains (exampleTasks ! 1) (js ''piano'')"
    by blast
  with k kb rows lk lt e eb low ins show ?thesis
    by simp
qed

text \<open>
  In the title the capital sigma stands at the end of a word and is lower-cased to the
  final small sigma; the keyword, a capital sigma by itself, is lower-cased to the small
  sigma. The title contains the keyword as it is written, and the task is not found.
\<close>

theorem final_sigma_counterexample:
  "taskKeyword (args greekCall) = Some [0x3A3] \<and>
   title greekTask = [0x39F, 0x394, 0x39F] @ [0x3A3] @ [] \<and>
   taskContains greekTask [0x3A3] \<and>
   toLowerCase exampleMapping (title greekTask) = [0x3BF, 0x3B4, 0x3BF, 0x3C2] \<and>
   toLowerCase exampleMapping [0x3A3] = [0x3C3] \<and>
   findIndex exampleMapping (lowerKeywordOf exampleMapping (args greekCall)) [greekTask] = None \<and>
   handleSend exampleMapping (Candidate None [greekCall]) [greekTask] = [greekTask]"
proof -
  have t: "title greekTask = [0x39F, 0x394, 0x39F] @ [0x3A3] @ []"
    by (simp add: greekTask_def)
  have "list_all2 sameLetter [0x3A3] [0x3A3]"
    by (simp add: sameLetter_def)
  with t have c: "taskContains greekTask [0x3A3]"
    unfolding taskContains_def containsIgnoringCase_def by blast
  have k: "taskKeyword (args greekCall) = Some [0x3A3]"
    by (simp add: greekCall_def)
  have l1: "toLowerCase exampleMapping (title greekTask) = [0x3BF, 0x3B4, 0x3BF, 0x3C2]"
    by code_simp
  have l2: "toLowerCase exampleMapping [0x3A3] = [0x3C3]"
    by code_simp
  have f: "findIndex exampleMapping (lowerKeywordOf exampleMapping (args greekCall)) [greekTask] = None"
    by code_simp
  have h: "handleSend exampleMapping (Candidate None [greekCall]) [greekTask] = [greekTask]"
    by code_simp
  from t c k l1 l2 f h show ?thesis
    by (intro conjI)
qed

section \<open>The loop over the function calls\<close>

lemma applyCalls_Nil: "applyCalls lm v [] = v"
  by (simp add: applyCalls_def)

lemma applyCalls_Cons: "applyCalls lm v (c # cs) = applyCalls lm (applyCall lm v c) cs"
  by (simp add: applyCalls_def)

lemma applyCalls_append: "applyCalls lm v (xs @ ys) = applyCalls lm (applyCalls lm v xs) ys"
  by (simp add: applyCalls_def)

lemma applyCall_unresolved:
  "isMutation c \<Longrightarrow> unresolved lm c (newTasks v) \<Longrightarrow>
   applyCall lm v c = v\<lparr>responseText := notFoundText (args c)\<rparr>"
  by (auto simp: applyCall_def isMutation_def unresolved_def Let_def)

lemma applyCalls_all_unresolved:
  "\<forall>c\<in>set calls. isMutation c \<and> unresolved lm c (newTasks v) \<Longrightarrow>
   applyCalls lm v calls =
     (if calls = [] then v else v\<lparr>responseText := notFoundText (args (last calls))\<rparr>)"
proof (induction calls arbitrary: v)
  case Nil
  then show ?case by (simp add: applyCalls_Nil)
next
  case (Cons c cs)
  then have c: "applyCall lm v c = v\<lparr>responseText := notFoundText (args c)\<rparr>"
    by (simp add: applyCall_unresolved)
  have "\<forall>d\<in>set cs. isMutation d \<and> unresolved lm d (newTasks (applyCall lm v c))"
    using Cons.prems by (simp add: c)
  from Cons.IH [OF this] show ?case
    by (simp add: applyCalls_Cons c)
qed

text \<open>
  C1. When the keyword of every mutation operation of a batch resolves to no task, the
  interpreter returns no new list, so that the caller keeps the input list as it is,
  and for a batch that is not empty the response text is the failure explanation of
  its last operation.
\<close>

theorem unresolved_batch_keeps_list:
  assumes "\<forall>c\<in>set calls. isMutation c \<and> unresolved lm c ts"
  shows "updatedTasks (processAgentCommand lm (Candidate txt calls) ts) = None \<and>
         handleSend lm (Candidate txt calls) ts = ts \<and>
         newTasks (applyCalls lm
            \<lparr>responseText = defaultText txt, newTasks = ts, tasksModified = False\<rparr> calls) = ts \<and>
         (calls \<noteq> [] \<longrightarrow>
            replyText (processAgentCommand lm (Candidate txt calls) ts) =
              notFoundText (args (last calls)))"
proof -
  let ?v = "\<lparr>responseText = defaultText txt, newTasks = ts, tasksModified = False\<rparr>"
  have "\<forall>c\<in>set calls. isMutation c \<and> unresolved lm c (newTasks ?v)"
    using assms by simp
  from applyCalls_all_unresolved [OF this] show ?thesis
    by (simp add: processAgentCommand_def handleSend_def)
qed

theorem unresolved_batch_keeps_list_witness:
  "isMutation (toolCall ''deleteTask'' ''history'' 0 0) \<and>
   unresolved exampleMapping (toolCall ''deleteTask'' ''history'' 0 0) exampleTasks \<and>
   isMutation (toolCall ''reorderTask'' ''piano'' 0 1) \<and>
   unresolved exampleMapping (toolCall ''reorderTask'' ''piano'' 0 1) exampleTasks \<and>
   handleSend exampleMapping (Candidate None
        [toolCall ''deleteTask'' ''history'' 0 0, toolCall ''reorderTask'' ''piano'' 0 1])
      exampleTasks = exampleTasks \<and>
   replyText (processAgentCommand exampleMapping (Candidate None
        [toolCall ''deleteTask'' ''history'' 0 0, toolCall ''reorderTask'' ''piano'' 0 1])
      exampleTasks) =
     js ''I couldn'' @ [0x27] @ js ''t find a task matching '' @ [0x22] @ js ''piano''
       @ [0x22] @ js ''.''"
proof -
  let ?calls = "[toolCall ''deleteTask'' ''history'' 0 0, toolCall ''reorderTask'' ''piano'' 0 1]"
  have u1: "unresolved exampleMapping (toolCall ''deleteTask'' ''history'' 0 0) exampleTasks"
    by code_simp
  have u2: "unresolved exampleMapping (toolCall ''reorderTask'' ''piano'' 0 1) exampleTasks"
    by code_simp
  have m: "isMutation (toolCall ''deleteTask'' ''history'' 0 0)"
    "isMutation (toolCall ''reorderTask'' ''piano'' 0 1)"
    by (simp_all add: isMutation_def toolCall_def)
  have h: "\<forall>c\<in>set ?calls. isMutation c \<and> unresolved exampleMapping c exampleTasks"
    using u1 u2 m by simp
  have n: "notFoundText (args (last ?calls)) =
      js ''I couldn'' @ [0x27] @ js ''t find a task matching '' @ [0x22] @ js ''piano''
        @ [0x22] @ js ''.''"
    by (simp add: notFoundText_def keywordText_def toolCall_def)
  from unresolved_batch_keeps_list [OF h, of None] u1 u2 m n show ?thesis
    by simp
qed

section \<open>Splicing and the clamp of reorderTask\<close>

lemma length_spliceRemove: "idx < length xs \<Longrightarrow> length (spliceRemove idx xs) = length xs - 1"
  by (simp add: spliceRemove_def)

lemma set_spliceRemove: "set (spliceRemove idx xs) \<subseteq> set xs"
  unfolding spliceRemove_def by (auto dest: in_set_takeD in_set_dropD)

lemma length_spliceInsert: "length (spliceInsert k x xs) = Suc (length xs)"
  by (simp add: spliceInsert_def)

lemma set_spliceInsert: "set (spliceInsert k x xs) = insert x (set xs)"
proof -
  have "set (take k xs) \<union> set (drop k xs) = set xs"
    by (metis append_take_drop_id set_append)
  then show ?thesis by (auto simp: spliceInsert_def)
qed

lemma nth_spliceInsert: "k \<le> length xs \<Longrightarrow> spliceInsert k x xs ! k = x"
  by (simp add: spliceInsert_def nth_append)

lemma spliceRemove_spliceInsert: "k \<le> length xs \<Longrightarrow> spliceRemove k (spliceInsert k x xs) = xs"
  by (simp add: spliceInsert_def spliceRemove_def)

lemma clampTarget_le: "clampTarget p len \<le> len"
  unfolding clampTarget_def Let_def by auto

lemma clampTarget_one: "clampTarget 1 len = 0"
  by (simp add: clampTarget_def Let_def)

lemma clampTarget_last: "int len < p \<Longrightarrow> clampTarget p len = len"
  unfolding clampTarget_def Let_def by auto

lemma clampTarget_eq:
  "clampTarget p len = (if p \<le> 1 then 0 else if int len < p then len else nat (p - 1))"
  unfolding clampTarget_def Let_def by auto

lemma applyCall_reorder:
  assumes "name c = js ''reorderTask''"
    and "findIndex lm (lowerKeywordOf lm (args c)) (newTasks v) = Some idx"
  shows "applyCall lm v c =
     \<lparr>responseText = movedText (newTasks v ! idx)
         (clampTarget (newPosition (args c)) (length (spliceRemove idx (newTasks v)))),
      newTasks = spliceInsert
         (clampTarget (newPosition (args c)) (length (spliceRemove idx (newTasks v))))
         (newTasks v ! idx) (spliceRemove idx (newTasks v)),
      tasksModified = True\<rparr>"
  using assms by (simp add: applyCall_def Let_def js_eq_iff)

text \<open>
  C2. A reorderTask operation whose keyword resolves to a task reinserts that task at an
  index within the bounds of the resulting list, which is as long as the list before and
  keeps the other tasks in their order. Position 1 places the task first; a position
  greater than or equal to the length of the list places it last.
\<close>

theorem reorder_index_in_range:
  assumes "name c = js ''reorderTask''"
    and "findIndex lm (lowerKeywordOf lm (args c)) (newTasks v) = Some idx"
  shows "let rest = spliceRemove idx (newTasks v);
             targetIndex = clampTarget (newPosition (args c)) (length rest);
             result = newTasks (applyCall lm v c)
         in length result = length (newTasks v) \<and>
            targetIndex < length result \<and>
            result ! targetIndex = newTasks v ! idx \<and>
            spliceRemove targetIndex result = rest \<and>
            targetIndex =
              (if newPosition (args c) \<le> 1 then 0
               else if int (length (newTasks v)) \<le> newPosition (args c) then length result - 1
               else nat (newPosition (args c) - 1)) \<and>
            (newPosition (args c) = 1 \<longrightarrow> targetIndex = 0 \<and> hd result = newTasks v ! idx) \<and>
            (int (length (newTasks v)) \<le> newPosition (args c) \<longrightarrow>
               targetIndex = length result - 1 \<and> last result = newTasks v ! idx)"
proof -
  let ?old = "newTasks v"
  let ?rest = "spliceRemove idx ?old"
  let ?k = "clampTarget (newPosition (args c)) (length ?rest)"
  let ?res = "spliceInsert ?k (?old ! idx) ?rest"
  have idx: "idx < length ?old"
    using assms(2) by (rule findIndex_less)
  then have len_rest: "length ?rest = length ?old - 1"
    by (rule length_spliceRemove)
  have k: "?k \<le> length ?rest"
    by (rule clampTarget_le)
  have res: "newTasks (applyCall lm v c) = ?res"
    by (simp add: applyCall_reorder [OF assms])
  have len: "length ?res = length ?old"
    using idx by (simp add: length_spliceInsert len_rest)
  have nth: "?res ! ?k = ?old ! idx"
    using k by (rule nth_spliceInsert)
  have rem: "spliceRemove ?k ?res = ?rest"
    using k by (rule spliceRemove_spliceInsert)
  have exact: "?k = (if newPosition (args c) \<le> 1 then 0
               else if int (length ?old) \<le> newPosition (args c) then length ?res - 1
               else nat (newPosition (args c) - 1))"
    unfolding len using idx by (auto simp: clampTarget_eq len_rest)
  have first: "?k = 0 \<and> hd ?res = ?old ! idx" if "newPosition (args c) = 1"
  proof -
    have "?k = 0" using that by (simp add: clampTarget_one)
    then show ?thesis by (simp add: spliceInsert_def)
  qed
  have lst: "?k = length ?res - 1 \<and> last ?res = ?old ! idx"
    if "int (length ?old) \<le> newPosition (args c)"
  proof -
    have "int (length ?rest) < newPosition (args c)"
      using that idx len_rest by simp
    then have "?k = length ?rest" by (rule clampTarget_last)
    then show ?thesis by (simp add: spliceInsert_def len_rest)
  qed
  have bound: "?k < length ?res"
    using k len len_rest idx by simp
  show ?thesis
    unfolding Let_def res
    by (intro conjI impI len bound nth rem exact first [THEN conjunct1] first [THEN conjunct2]
        lst [THEN conjunct1] lst [THEN conjunct2])
qed

theorem reorder_index_in_range_witness:
  "name (toolCall ''reorderTask'' ''math'' 0 1) = js ''reorderTask'' \<and>
   findIndex exampleMapping (lowerKeywordOf exampleMapping (args (toolCall ''reorderTask'' ''math'' 0 1))) (newTasks exampleVars) = Some 1 \<and>
   newPosition (args (toolCall ''reorderTask'' ''math'' 0 1)) = 1 \<and>
   hd (newTasks (applyCall exampleMapping exampleVars (toolCall ''reorderTask'' ''math'' 0 1))) = exampleTasks ! 1 \<and>
   length (newTasks (applyCall exampleMapping exampleVars (toolCall ''reorderTask'' ''math'' 0 1))) = 3 \<and>
   name (toolCall ''reorderTask'' ''read'' 0 3) = js ''reorderTask'' \<and>
   findIndex exampleMapping (lowerKeywordOf exampleMapping (args (toolCall ''reorderTask'' ''read'' 0 3))) (newTasks exampleVars) = Some 0 \<and>
   int (length (newTasks exampleVars)) \<le> newPosition (args (toolCall ''reorderTask'' ''read'' 0 3)) \<and>
   last (newTasks (applyCall exampleMapping exampleVars (toolCall ''reorderTask'' ''read'' 0 3))) = exampleTasks ! 0"
proof -
  let ?c = "toolCall ''reorderTask'' ''math'' 0 1"
  let ?d = "toolCall ''reorderTask'' ''read'' 0 3"
  have n: "name ?c = js ''reorderTask''"
    by (simp add: toolCall_def)
  have f: "findIndex exampleMapping (lowerKeywordOf exampleMapping (args ?c)) (newTasks exampleVars) = Some 1"
    by code_simp
  have p: "newPosition (args ?c) = 1"
    by (simp add: toolCall_def)
  have l: "length (newTasks exampleVars) = 3"
    by (simp add: exampleVars_def exampleTasks_def)
  have e: "newTasks exampleVars ! 1 = exampleTasks ! 1" "newTasks exampleVars ! 0 = exampleTasks ! 0"
    by (simp_all add: exampleVars_def)
  have nd: "name ?d = js ''reorderTask''"
    by (simp add: toolCall_def)
  have fd: "findIndex exampleMapping (lowerKeywordOf exampleMapping (args ?d)) (newTasks exampleVars) = Some 0"
    by code_simp
  have pd: "int (length (newTasks exampleVars)) \<le> newPosition (args ?d)"
    by (simp add: l toolCall_def)
  from reorder_index_in_range [OF n f] p l e
  have first: "hd (newTasks (applyCall exampleMapping exampleVars ?c)) = exampleTasks ! 1"
    "length (newTasks (applyCall exampleMapping exampleVars ?c)) = 3"
    by (simp_all add: Let_def)
  from reorder_index_in_range [OF nd fd] pd e
  have "last (newTasks (applyCall exampleMapping exampleVars ?d)) = exampleTasks ! 0"
    by (simp add: Let_def)
  with first n f p nd fd pd show ?thesis
    by simp
qed

section \<open>The empty keyword\<close>

lemma findIndex_empty_keyword: "findIndex lm [] ts = (if ts = [] then None else Some 0)"
  by (cases ts) (simp_all add: findIndex_def matchesKeyword_def includesStr_sublist)

text \<open>
  C4, as the code has it. An operation whose keyword is the empty string resolves to the
  first task of the list whenever the list is not empty, since the empty string is
  included in every title, and is applied to that task: updateTaskTime overwrites its
  estimate, deleteTask removes it, reorderTask moves it to the clamped position. Only
  on the empty list does the operation resolve to no task and leave the list as it is.
\<close>

theorem empty_keyword_first_task:
  assumes "taskKeyword (args c) = Some []"
  shows "findIndex lm (lowerKeywordOf lm (args c)) (newTasks v) =
           (if newTasks v = [] then None else Some 0) \<and>
         (newTasks v = [] \<longrightarrow>
            newTasks (applyCall lm v c) = [] \<and> tasksModified (applyCall lm v c) = tasksModified v) \<and>
         (newTasks v \<noteq> [] \<and> name c = js ''updateTaskTime'' \<longrightarrow>
            applyCall lm v c =
              \<lparr>responseText = updatedText (hd (newTasks v)) (newMinutes (args c)),
               newTasks = (hd (newTasks v))\<lparr>estimatedMinutes := newMinutes (args c)\<rparr>
                 # tl (newTasks v),
               tasksModified = True\<rparr>) \<and>
         (newTasks v \<noteq> [] \<and> name c = js ''deleteTask'' \<longrightarrow>
            applyCall lm v c =
              \<lparr>responseText = removedText (hd (newTasks v)),
               newTasks = tl (newTasks v),
               tasksModified = True\<rparr>) \<and>
         (newTasks v \<noteq> [] \<and> name c = js ''reorderTask'' \<longrightarrow>
            applyCall lm v c =
              \<lparr>responseText = movedText (hd (newTasks v))
                 (clampTarget (newPosition (args c)) (length (tl (newTasks v)))),
               newTasks = spliceInsert
                 (clampTarget (newPosition (args c)) (length (tl (newTasks v))))
                 (hd (newTasks v)) (tl (newTasks v)),
               tasksModified = True\<rparr>)"
proof -
  have kw: "lowerKeywordOf lm (args c) = []"
    using assms by (simp add: lowerKeywordOf_def toLowerCase_Nil)
  have found: "findIndex lm (lowerKeywordOf lm (args c)) (newTasks v) =
      (if newTasks v = [] then None else Some 0)"
    by (simp add: kw findIndex_empty_keyword)
  have none: "newTasks (applyCall lm v c) = [] \<and>
      tasksModified (applyCall lm v c) = tasksModified v"
    if "newTasks v = []"
    using that by (simp add: applyCall_def Let_def kw findIndex_empty_keyword)
  have first: "findIndex lm [] (newTasks v) = Some 0" "newTasks v ! 0 = hd (newTasks v)"
    "(newTasks v)[0 := t] = t # tl (newTasks v)" "spliceRemove 0 (newTasks v) = tl (newTasks v)"
    if "newTasks v \<noteq> []" for t
    using that by (cases "newTasks v"; simp add: findIndex_empty_keyword spliceRemove_def)+
  have upd: "applyCall lm v c =
      \<lparr>responseText = updatedText (hd (newTasks v)) (newMinutes (args c)),
       newTasks = (hd (newTasks v))\<lparr>estimatedMinutes := newMinutes (args c)\<rparr> # tl (newTasks v),
       tasksModified = True\<rparr>"
    if "newTasks v \<noteq> []" and "name c = js ''updateTaskTime''"
    using that first by (simp add: applyCall_def Let_def kw updatedText_def)
  have del: "applyCall lm v c =
      \<lparr>responseText = removedText (hd (newTasks v)),
       newTasks = tl (newTasks v),
       tasksModified = True\<rparr>"
    if "newTasks v \<noteq> []" and "name c = js ''deleteTask''"
    using that first by (simp add: applyCall_def Let_def kw js_eq_iff)
  have mov: "applyCall lm v c =
      \<lparr>responseText = movedText (hd (newTasks v))
         (clampTarget (newPosition (args c)) (length (tl (newTasks v)))),
       newTasks = spliceInsert
         (clampTarget (newPosition (args c)) (length (tl (newTasks v))))
         (hd (newTasks v)) (tl (newTasks v)),
       tasksModified = True\<rparr>"
    if "newTasks v \<noteq> []" and "name c = js ''reorderTask''"
    using that first by (simp add: applyCall_def Let_def kw js_eq_iff)
  from found none upd del mov show ?thesis
    by blast
qed

theorem empty_keyword_first_task_witness:
  "taskKeyword (args (toolCall ''deleteTask'' [] 0 0)) = Some [] \<and>
   findIndex exampleMapping
     (lowerKeywordOf exampleMapping (args (toolCall ''deleteTask'' [] 0 0)))
     (newTasks exampleVars) = Some 0 \<and>
   newTasks emptyVars = [] \<and>
   newTasks (applyCall exampleMapping emptyVars (toolCall ''deleteTask'' [] 0 0)) = [] \<and>
   \<not> tasksModified (applyCall exampleMapping emptyVars (toolCall ''deleteTask'' [] 0 0)) \<and>
   newTasks exampleVars \<noteq> [] \<and>
   name (toolCall ''deleteTask'' [] 0 0) = js ''deleteTask'' \<and>
   newTasks (applyCall exampleMapping exampleVars (toolCall ''deleteTask'' [] 0 0)) =
     tl exampleTasks \<and>
   tasksModified (applyCall exampleMapping exampleVars (toolCall ''deleteTask'' [] 0 0)) \<and>
   taskKeyword (args (toolCall ''updateTaskTime'' [] 45 0)) = Some [] \<and>
   name (toolCall ''updateTaskTime'' [] 45 0) = js ''updateTaskTime'' \<and>
   map estimatedMinutes
     (newTasks (applyCall exampleMapping exampleVars (toolCall ''updateTaskTime'' [] 45 0))) =
     [45, 20, 5] \<and>
   taskKeyword (args (toolCall ''reorderTask'' [] 0 3)) = Some [] \<and>
   name (toolCall ''reorderTask'' [] 0 3) = js ''reorderTask'' \<and>
   map taskId
     (newTasks (applyCall exampleMapping exampleVars (toolCall ''reorderTask'' [] 0 3))) =
     [js ''t2'', js ''t3'', js ''t1'']"
proof -
  let ?d = "toolCall ''deleteTask'' [] 0 0"
  let ?u = "toolCall ''updateTaskTime'' [] 45 0"
  let ?r = "toolCall ''reorderTask'' [] 0 3"
  have k: "taskKeyword (args ?d) = Some []" "taskKeyword (args ?u) = Some []"
    "taskKeyword (args ?r) = Some []"
    by (simp_all add: toolCall_def js_def)
  have n: "name ?d = js ''deleteTask''" "name ?u = js ''updateTaskTime''"
    "name ?r = js ''reorderTask''"
    by (simp_all add: toolCall_def)
  have ne: "newTasks exampleVars \<noteq> []"
    by (simp add: exampleVars_def exampleTasks_def)
  have ex: "newTasks exampleVars = exampleTasks"
    by (simp add: exampleVars_def)
  have em: "newTasks emptyVars = []" "\<not> tasksModified emptyVars"
    by (simp_all add: emptyVars_def)
  from empty_keyword_first_task [OF k(1), of exampleMapping exampleVars] ne
  have f: "findIndex exampleMapping (lowerKeywordOf exampleMapping (args ?d))
      (newTasks exampleVars) = Some 0"
    by simp
  from empty_keyword_first_task [OF k(1), of exampleMapping emptyVars] em
  have e: "newTasks (applyCall exampleMapping emptyVars ?d) = []"
    "\<not> tasksModified (applyCall exampleMapping emptyVars ?d)"
    by simp_all
  from empty_keyword_first_task [OF k(1), of exampleMapping exampleVars] ne n(1)
  have "applyCall exampleMapping exampleVars ?d =
      \<lparr>responseText = removedText (hd (newTasks exampleVars)),
       newTasks = tl (newTasks exampleVars), tasksModified = True\<rparr>"
    by blast
  then have d: "newTasks (applyCall exampleMapping exampleVars ?d) = tl exampleTasks"
    "tasksModified (applyCall exampleMapping exampleVars ?d)"
    by (simp_all add: ex)
  from empty_keyword_first_task [OF k(2), of exampleMapping exampleVars] ne n(2)
  have "applyCall exampleMapping exampleVars ?u =
      \<lparr>responseText = updatedText (hd (newTasks exampleVars)) (newMinutes (args ?u)),
       newTasks = (hd (newTasks exampleVars))\<lparr>estimatedMinutes := newMinutes (args ?u)\<rparr>
         # tl (newTasks exampleVars),
       tasksModified = True\<rparr>"
    by blast
  then have u: "map estimatedMinutes (newTasks (applyCall exampleMapping exampleVars ?u)) =
      [45, 20, 5]"
    by (simp add: ex exampleTasks_def exampleTask_def toolCall_def)
  from empty_keyword_first_task [OF k(3), of exampleMapping exampleVars] ne n(3)
  have "applyCall exampleMapping exampleVars ?r =
      \<lparr>responseText = movedText (hd (newTasks exampleVars))
         (clampTarget (newPosition (args ?r)) (length (tl (newTasks exampleVars)))),
       newTasks = spliceInsert
         (clampTarget (newPosition (args ?r)) (length (tl (newTasks exampleVars))))
         (hd (newTasks exampleVars)) (tl (newTasks exampleVars)),
       tasksModified = True\<rparr>"
    by blast
  then have r: "map taskId (newTasks (applyCall exampleMapping exampleVars ?r)) =
      [js ''t2'', js ''t3'', js ''t1'']"
    by (simp add: ex exampleTasks_def exampleTask_def toolCall_def spliceInsert_def
        clampTarget_def)
  from k n ne em f e d u r show ?thesis
    by (intro conjI)
qed

theorem empty_keyword_counterexample:
  "taskKeyword (args (toolCall ''deleteTask'' [] 0 0)) = Some [] \<and>
   \<not> unresolved exampleMapping (toolCall ''deleteTask'' [] 0 0) exampleTasks \<and>
   handleSend exampleMapping (Candidate None [toolCall ''deleteTask'' [] 0 0]) exampleTasks = tl exampleTasks \<and>
   handleSend exampleMapping (Candidate None [toolCall ''deleteTask'' [] 0 0]) exampleTasks \<noteq> exampleTasks"
  by code_simp

section \<open>Positive time estimates\<close>

lemma applyCall_positive:
  assumes "positiveMinutes (newTasks v)"
    and "name c = js ''updateTaskTime'' \<longrightarrow> 0 < newMinutes (args c)"
  shows "positiveMinutes (newTasks (applyCall lm v c))"
proof (cases "findIndex lm (lowerKeywordOf lm (args c)) (newTasks v)")
  case None
  then show ?thesis
    using assms(1) by (simp add: applyCall_def Let_def)
next
  case (Some idx)
  have upd: "positiveMinutes ((newTasks v)[idx := (newTasks v ! idx)\<lparr>estimatedMinutes := m\<rparr>])"
    if "0 < m" for m
    using assms(1) that unfolding positiveMinutes_def
    by (auto dest!: set_update_subset_insert [THEN subsetD])
  have del: "positiveMinutes (spliceRemove idx (newTasks v))"
    using assms(1) set_spliceRemove [of idx "newTasks v"] unfolding positiveMinutes_def by blast
  have idx: "idx < length (newTasks v)"
    using Some by (rule findIndex_less)
  have mov: "positiveMinutes (spliceInsert k (newTasks v ! idx) (spliceRemove idx (newTasks v)))" for k
    using assms(1) set_spliceRemove [of idx "newTasks v"] idx
    unfolding positiveMinutes_def set_spliceInsert by auto
  show ?thesis
    using Some assms upd del mov by (simp add: applyCall_def Let_def)
qed

lemma applyCalls_positive:
  "positiveMinutes (newTasks v) \<Longrightarrow> positiveUpdates calls \<Longrightarrow>
   positiveMinutes (newTasks (applyCalls lm v calls))"
proof (induction calls arbitrary: v)
  case Nil
  then show ?case by (simp add: applyCalls_Nil)
next
  case (Cons c cs)
  from Cons.prems have "positiveMinutes (newTasks (applyCall lm v c))"
    by (intro applyCall_positive) (simp_all add: positiveUpdates_def)
  moreover from Cons.prems have "positiveUpdates cs"
    by (simp add: positiveUpdates_def)
  ultimately show ?case
    by (simp add: applyCalls_Cons Cons.IH)
qed

text \<open>
  C5, as the code has it. When every task of the list has a positive estimate and every
  updateTaskTime operation of the batch carries a positive number of minutes, every task
  of the list the batch leaves has a positive estimate. The code stores the number of an
  updateTaskTime operation as it comes.
\<close>

theorem positive_updates_keep_positive:
  assumes "positiveMinutes ts" and "positiveUpdates calls"
  shows "positiveMinutes (handleSend lm (Candidate txt calls) ts)"
proof -
  let ?v = "\<lparr>responseText = defaultText txt, newTasks = ts, tasksModified = False\<rparr>"
  have "positiveMinutes (newTasks (applyCalls lm ?v calls))"
    using assms by (intro applyCalls_positive) simp_all
  then show ?thesis
    using assms(1) by (simp add: handleSend_def processAgentCommand_def Let_def)
qed

theorem positive_updates_keep_positive_witness:
  "positiveMinutes exampleTasks \<and>
   positiveUpdates [toolCall ''updateTaskTime'' ''math'' 45 0, toolCall ''deleteTask'' ''read'' 0 0] \<and>
   positiveMinutes (handleSend exampleMapping (Candidate None
      [toolCall ''updateTaskTime'' ''math'' 45 0, toolCall ''deleteTask'' ''read'' 0 0]) exampleTasks) \<and>
   map estimatedMinutes (handleSend exampleMapping (Candidate None
      [toolCall ''updateTaskTime'' ''math'' 45 0, toolCall ''deleteTask'' ''read'' 0 0]) exampleTasks) = [45, 5]"
proof -
  have p: "positiveMinutes exampleTasks"
    by (simp add: positiveMinutes_def exampleTasks_def exampleTask_def)
  have u: "positiveUpdates [toolCall ''updateTaskTime'' ''math'' 45 0, toolCall ''deleteTask'' ''read'' 0 0]"
    by (simp add: positiveUpdates_def toolCall_def js_eq_iff)
  have m: "map estimatedMinutes (handleSend exampleMapping (Candidate None
      [toolCall ''updateTaskTime'' ''math'' 45 0, toolCall ''deleteTask'' ''read'' 0 0]) exampleTasks) = [45, 5]"
    by code_simp
  from positive_updates_keep_positive [OF p u, of exampleMapping None] p u m show ?thesis
    by simp
qed

theorem update_time_counterexample:
  "positiveMinutes exampleTasks \<and>
   \<not> positiveMinutes (handleSend exampleMapping (Candidate None [toolCall ''updateTaskTime'' ''math'' 0 0])
        exampleTasks) \<and>
   map estimatedMinutes (handleSend exampleMapping (Candidate None [toolCall ''updateTaskTime'' ''math'' 0 0])
        exampleTasks) = [10, 0, 5]"
proof -
  have p: "positiveMinutes exampleTasks"
    by (simp add: positiveMinutes_def exampleTasks_def exampleTask_def)
  have m: "map estimatedMinutes (handleSend exampleMapping (Candidate None [toolCall ''updateTaskTime'' ''math'' 0 0])
        exampleTasks) = [10, 0, 5]"
    by code_simp
  have "\<not> positiveMinutes ts" if "map estimatedMinutes ts = [10, 0, 5]" for ts
  proof
    assume "positiveMinutes ts"
    then have "\<forall>x\<in>set (map estimatedMinutes ts). 0 < x"
      by (simp add: positiveMinutes_def)
    with that show False by simp
  qed
  from this [OF m] p m show ?thesis by simp
qed

section \<open>An unresolved operation inside a batch\<close>

lemma notFoundText_names_keyword:
  assumes "taskKeyword a = Some k"
  shows "sublist k (notFoundText a)"
proof -
  have "notFoundText a =
      (js ''I couldn'' @ [0x27] @ js ''t find a task matching '' @ [0x22]) @ k @
      ([0x22] @ js ''.'')"
    using assms by (simp add: notFoundText_def keywordText_def)
  then show ?thesis
    by (simp only: sublist_appendI)
qed

text \<open>
  C6, as the code has it. A mutation operation whose keyword matches no task of the list
  as it stands when the operation is reached changes neither the list nor the modified
  flag, and the operations after it are applied as if it had only set the response text.
  Right after it the response text is the failure explanation, which contains the
  keyword; an operation that follows overwrites the text, so the final response names
  the keyword when the unresolved operation is the last of the batch.
\<close>

theorem unresolved_call_dropped:
  assumes "isMutation c" and "unresolved lm c (newTasks (applyCalls lm v pre))"
  shows "applyCalls lm v (pre @ c # post) =
           applyCalls lm ((applyCalls lm v pre)\<lparr>responseText := notFoundText (args c)\<rparr>) post \<and>
         newTasks (applyCalls lm v (pre @ [c])) = newTasks (applyCalls lm v pre) \<and>
         tasksModified (applyCalls lm v (pre @ [c])) = tasksModified (applyCalls lm v pre) \<and>
         responseText (applyCalls lm v (pre @ [c])) = notFoundText (args c) \<and>
         (\<forall>k. taskKeyword (args c) = Some k \<longrightarrow>
            includesStr (responseText (applyCalls lm v (pre @ [c]))) k)"
proof -
  have step: "applyCall lm (applyCalls lm v pre) c =
      (applyCalls lm v pre)\<lparr>responseText := notFoundText (args c)\<rparr>"
    using assms by (rule applyCall_unresolved)
  have one: "applyCalls lm v (pre @ [c]) = (applyCalls lm v pre)\<lparr>responseText := notFoundText (args c)\<rparr>"
    by (simp add: applyCalls_append applyCalls_Cons applyCalls_Nil step)
  have all: "applyCalls lm v (pre @ c # post) =
      applyCalls lm ((applyCalls lm v pre)\<lparr>responseText := notFoundText (args c)\<rparr>) post"
    by (simp add: applyCalls_append applyCalls_Cons step)
  show ?thesis
    unfolding one using all by (simp add: includesStr_sublist notFoundText_names_keyword)
qed

theorem unresolved_call_dropped_witness:
  "isMutation (toolCall ''deleteTask'' ''piano'' 0 0) \<and>
   unresolved exampleMapping (toolCall ''deleteTask'' ''piano'' 0 0)
     (newTasks (applyCalls exampleMapping exampleVars [toolCall ''deleteTask'' ''read'' 0 0])) \<and>
   map taskId (newTasks (applyCalls exampleMapping exampleVars
     ([toolCall ''deleteTask'' ''read'' 0 0] @ toolCall ''deleteTask'' ''piano'' 0 0 #
      [toolCall ''reorderTask'' ''pendulum'' 0 1]))) = [js ''t3'', js ''t2''] \<and>
   includesStr (responseText (applyCalls exampleMapping exampleVars
     ([toolCall ''deleteTask'' ''read'' 0 0] @ [toolCall ''deleteTask'' ''piano'' 0 0]))) (js ''piano'')"
proof -
  let ?c = "toolCall ''deleteTask'' ''piano'' 0 0"
  let ?pre = "[toolCall ''deleteTask'' ''read'' 0 0]"
  let ?post = "[toolCall ''reorderTask'' ''pendulum'' 0 1]"
  have m: "isMutation ?c"
    by (simp add: isMutation_def toolCall_def)
  have u: "unresolved exampleMapping ?c (newTasks (applyCalls exampleMapping exampleVars ?pre))"
    by code_simp
  have k: "taskKeyword (args ?c) = Some (js ''piano'')"
    by (simp add: toolCall_def)
  have r: "map taskId (newTasks (applyCalls exampleMapping
      ((applyCalls exampleMapping exampleVars ?pre)\<lparr>responseText := notFoundText (args ?c)\<rparr>) ?post)) = [js ''t3'', js ''t2'']"
    by code_simp
  note t = unresolved_call_dropped [OF m u, of ?post]
  from t have a: "applyCalls exampleMapping exampleVars (?pre @ ?c # ?post) =
      applyCalls exampleMapping ((applyCalls exampleMapping exampleVars ?pre)\<lparr>responseText := notFoundText (args ?c)\<rparr>) ?post"
    by (rule conjunct1)
  from t k have b: "includesStr (responseText (applyCalls exampleMapping exampleVars (?pre @ [?c]))) (js ''piano'')"
    by blast
  show ?thesis
    unfolding a using m u r b by simp
qed

theorem unresolved_keyword_overwritten_counterexample:
  "isMutation (toolCall ''deleteTask'' ''piano'' 0 0) \<and>
   unresolved exampleMapping (toolCall ''deleteTask'' ''piano'' 0 0) exampleTasks \<and>
   replyText (processAgentCommand exampleMapping (Candidate None
     [toolCall ''deleteTask'' ''piano'' 0 0, toolCall ''deleteTask'' ''read'' 0 0]) exampleTasks) =
     js ''Removed Read chapter 4 from your list.'' \<and>
   \<not> includesStr (replyText (processAgentCommand exampleMapping (Candidate None
     [toolCall ''deleteTask'' ''piano'' 0 0, toolCall ''deleteTask'' ''read'' 0 0]) exampleTasks)) (js ''piano'')"
  by code_simp

section \<open>The countdown\<close>

lemma tick_running:
  "isPlaying s \<Longrightarrow> 1 < timeLeft s \<Longrightarrow> currentTask (tasks s) \<noteq> None \<Longrightarrow>
   tick s = s\<lparr>timeLeft := timeLeft s - 1\<rparr>"
  by (simp add: tick_def intervalSet_def timerEffect_def timerUpdate_def)

lemma tick_last:
  "isPlaying s \<Longrightarrow> timeLeft s = 1 \<Longrightarrow> currentTask (tasks s) \<noteq> None \<Longrightarrow>
   tick s = s\<lparr>timeLeft := 0, isPlaying := False\<rparr>"
  by (simp add: tick_def intervalSet_def timerEffect_def timerUpdate_def)

lemma tick_idle: "\<not> intervalSet s \<Longrightarrow> tick s = s"
  by (simp add: tick_def)

lemma ticks_idle: "\<not> intervalSet s \<Longrightarrow> ticks n s = s"
  by (induction n) (simp_all add: tick_idle)

lemma tick_nonneg: "0 \<le> timeLeft s \<Longrightarrow> 0 \<le> timeLeft (tick s)"
  by (simp add: tick_def intervalSet_def timerEffect_def timerUpdate_def)

lemma ticks_nonneg: "0 \<le> timeLeft s \<Longrightarrow> 0 \<le> timeLeft (ticks n s)"
  by (induction n arbitrary: s) (simp_all add: tick_nonneg)

text \<open>
  C9. In a running session with two seconds left, two ticks bring the countdown to zero
  and stop it: the session is expired, any number of further ticks leaves the state as
  it is, and the time left is negative after no number of ticks.
\<close>

theorem countdown_two_ticks:
  assumes "isPlaying s" and "timeLeft s = 2" and "currentTask (tasks s) \<noteq> None"
  shows "tick (tick s) = s\<lparr>timeLeft := 0, isPlaying := False\<rparr> \<and>
         timeLeft (tick s) = 1 \<and> isPlaying (tick s) \<and>
         timeLeft (tick (tick s)) = 0 \<and> \<not> isPlaying (tick (tick s)) \<and>
         expired (tick (tick s)) \<and>
         (\<forall>n. ticks n (tick (tick s)) = tick (tick s)) \<and>
         (\<forall>n. 0 \<le> timeLeft (ticks n s))"
proof -
  have t1: "tick s = s\<lparr>timeLeft := 1\<rparr>"
    using assms by (simp add: tick_running)
  have t2: "tick (tick s) = s\<lparr>timeLeft := 0, isPlaying := False\<rparr>"
    unfolding t1 using assms by (simp add: tick_last)
  have idle: "\<not> intervalSet (tick (tick s))"
    unfolding t2 by (simp add: intervalSet_def)
  have stay: "ticks n (tick (tick s)) = tick (tick s)" for n
    using idle by (rule ticks_idle)
  have nonneg: "0 \<le> timeLeft (ticks n s)" for n
    using assms(2) by (intro ticks_nonneg) simp
  have ex: "expired (tick (tick s))"
    unfolding t2 using assms(3) by (simp add: expired_def)
  show ?thesis
    using t2 stay nonneg ex assms(1) by (simp add: t1)
qed

theorem countdown_two_ticks_witness:
  "isPlaying runningSession \<and> timeLeft runningSession = 2 \<and>
   currentTask (tasks runningSession) \<noteq> None \<and>
   expired (ticks 2 runningSession) \<and>
   ticks 5 runningSession = ticks 2 runningSession"
proof -
  have p: "isPlaying runningSession"
    by code_simp
  have l: "timeLeft runningSession = 2"
    by (simp add: runningSession_def)
  have c: "currentTask (tasks runningSession) \<noteq> None"
    by code_simp
  note t = countdown_two_ticks [OF p l c]
  have two: "ticks 2 runningSession = tick (tick runningSession)"
    by (simp add: numeral_2_eq_2)
  have five: "ticks 5 runningSession = ticks 3 (tick (tick runningSession))"
    by (simp add: eval_nat_numeral)
  from t have three: "ticks 3 (tick (tick runningSession)) = tick (tick runningSession)"
    by blast
  from t have "expired (tick (tick runningSession))"
    by blast
  with p l c show ?thesis
    unfolding five two three by simp
qed

section \<open>Toggling a step\<close>

lemma map_toggle_distinct:
  assumes "distinct (map f xs)" and "i < length xs"
  shows "map (\<lambda>x. if f x = f (xs ! i) then g x else x) xs = xs[i := g (xs ! i)]"
proof (rule nth_equalityI)
  show "length (map (\<lambda>x. if f x = f (xs ! i) then g x else x) xs) = length (xs[i := g (xs ! i)])"
    by simp
next
  fix j
  assume "j < length (map (\<lambda>x. if f x = f (xs ! i) then g x else x) xs)"
  then have j: "j < length xs" by simp
  have "f (xs ! j) = f (xs ! i) \<longleftrightarrow> j = i"
    using assms j nth_eq_iff_index_eq [of "map f xs" j i] by simp
  then show "map (\<lambda>x. if f x = f (xs ! i) then g x else x) xs ! j = xs[i := g (xs ! i)] ! j"
    using j assms(2) by (simp add: nth_list_update)
qed

lemma toggleStep_tick: "tick (toggleStep sid s) = toggleStep sid (tick s)"
  by (simp add: tick_def toggleStep_def intervalSet_def timerEffect_def timerUpdate_def)

text \<open>
  C10. Toggling a step of the session, the step ids being distinct, replaces that step
  by itself with its completion flag flipped and changes nothing else: the other steps,
  the time left, the total time, the running flag, the task list and the active task
  stay as they are, and a tick has the same effect before and after the toggle.
\<close>

theorem toggleStep_only_that_step:
  assumes "i < length (localSteps s)" and "distinct (map stepId (localSteps s))"
  shows "toggleStep (stepId (localSteps s ! i)) s =
           s\<lparr>localSteps := (localSteps s)
               [i := (localSteps s ! i)\<lparr>isCompleted := \<not> isCompleted (localSteps s ! i)\<rparr>]\<rparr> \<and>
         timeLeft (toggleStep (stepId (localSteps s ! i)) s) = timeLeft s \<and>
         totalTime (toggleStep (stepId (localSteps s ! i)) s) = totalTime s \<and>
         isPlaying (toggleStep (stepId (localSteps s ! i)) s) = isPlaying s \<and>
         tasks (toggleStep (stepId (localSteps s ! i)) s) = tasks s \<and>
         prevTaskIdRef (toggleStep (stepId (localSteps s ! i)) s) = prevTaskIdRef s \<and>
         tick (toggleStep (stepId (localSteps s ! i)) s) =
           toggleStep (stepId (localSteps s ! i)) (tick s)"
proof -
  have "map (\<lambda>st. if stepId st = stepId (localSteps s ! i)
                  then st\<lparr>isCompleted := \<not> isCompleted st\<rparr> else st) (localSteps s) =
        (localSteps s)[i := (localSteps s ! i)\<lparr>isCompleted := \<not> isCompleted (localSteps s ! i)\<rparr>]"
    using assms(2,1) by (rule map_toggle_distinct)
  then have eq: "toggleStep (stepId (localSteps s ! i)) s =
      s\<lparr>localSteps := (localSteps s)
          [i := (localSteps s ! i)\<lparr>isCompleted := \<not> isCompleted (localSteps s ! i)\<rparr>]\<rparr>"
    by (simp add: toggleStep_def)
  show ?thesis
    by (intro conjI eq toggleStep_tick) (simp_all add: toggleStep_def)
qed

theorem toggleStep_only_that_step_witness:
  "0 < length (localSteps steppedSession) \<and>
   distinct (map stepId (localSteps steppedSession)) \<and>
   toggleStep (js ''b1'') steppedSession =
     steppedSession\<lparr>localSteps := [exampleStep ''b1'' ''Do exercise 1'' True]\<rparr> \<and>
   timeLeft (toggleStep (js ''b1'') steppedSession) = 300"
proof -
  have ls: "localSteps steppedSession = [exampleStep ''b1'' ''Do exercise 1'' False]"
    by code_simp
  have tl: "timeLeft steppedSession = 300"
    by code_simp
  have i: "0 < length (localSteps steppedSession)"
    by (simp add: ls)
  have d: "distinct (map stepId (localSteps steppedSession))"
    by (simp add: ls)
  from toggleStep_only_that_step [OF i d] i d tl show ?thesis
    by (simp add: ls exampleStep_def)
qed

section \<open>Generated steps\<close>

lemma makeSteps_length: "length (makeSteps uuid strs) = length strs"
  by (simp add: makeSteps_def)

lemma stepsArrived_installs: "localSteps (stepsArrived uuid strs s) = makeSteps uuid strs"
  by (simp add: stepsArrived_def)

lemma stepRequest_issued:
  "currentTask (tasks s) = Some t \<Longrightarrow> prevTaskIdRef s \<noteq> Some (taskId t) \<Longrightarrow>
   stepRequest s = (if steps t = [] then Some t else None)"
  by (simp add: stepRequest_def)

lemma quickStepsArrived_absent:
  "tid \<notin> taskId ` set prev \<Longrightarrow> quickStepsArrived tid uuid strs prev = prev"
  unfolding quickStepsArrived_def by (induction prev) auto

lemma quickStepsArrived_other:
  "i < length prev \<Longrightarrow> taskId (prev ! i) \<noteq> tid \<Longrightarrow>
   quickStepsArrived tid uuid strs prev ! i = prev ! i"
  by (simp add: quickStepsArrived_def)

lemma generate_failed: "generateStepsForTask parse CallFailed = fallbackSteps"
  by (simp add: generateStepsForTask_def)

lemma generate_unparseable:
  "t \<noteq> [] \<Longrightarrow> parse (cleanJsonString t) = None \<Longrightarrow>
   generateStepsForTask parse (Responded (Some t)) = fallbackSteps"
  by (simp add: generateStepsForTask_def)

lemma length_fallbackSteps: "length fallbackSteps = 4"
  by (simp add: fallbackSteps_def)

lemma quickStepsArrived_steps:
  assumes "x \<in> set (quickStepsArrived tid uuid strs prev)" and "taskId x = tid"
  shows "length (steps x) = length strs"
proof -
  from assms(1)
  have "x \<in> (\<lambda>t. if taskId t = tid then t\<lparr>steps := makeSteps uuid strs\<rparr> else t) ` set prev"
    by (simp only: quickStepsArrived_def set_map)
  then obtain t where
    x: "x = (if taskId t = tid then t\<lparr>steps := makeSteps uuid strs\<rparr> else t)"
    by (rule imageE)
  show ?thesis
  proof (cases "taskId t = tid")
    case True
    with x have "x = t\<lparr>steps := makeSteps uuid strs\<rparr>" by simp
    then show ?thesis by (simp add: makeSteps_length)
  next
    case False
    with x have "x = t" by simp
    with False assms(2) show ?thesis by simp
  qed
qed

text \<open>
  C7. When the call to the step generator fails, and also when its payload cannot be
  parsed, the result is the fixed fallback sequence of four steps, so that the step list
  installed from it, in the focus session or in the task that asked for it, has four
  steps.
\<close>

theorem step_generation_fallback:
  "generateStepsForTask parse CallFailed = fallbackSteps \<and>
   (t \<noteq> [] \<and> parse (cleanJsonString t) = None \<longrightarrow>
      generateStepsForTask parse (Responded (Some t)) = fallbackSteps) \<and>
   length fallbackSteps = 4 \<and>
   length (localSteps (stepsArrived uuid (generateStepsForTask parse CallFailed) s)) = 4 \<and>
   (\<forall>x\<in>set (quickStepsArrived tid uuid (generateStepsForTask parse CallFailed) prev).
      taskId x = tid \<longrightarrow> length (steps x) = 4)"
proof (intro conjI)
  show "generateStepsForTask parse CallFailed = fallbackSteps"
    by (rule generate_failed)
  show "t \<noteq> [] \<and> parse (cleanJsonString t) = None \<longrightarrow>
      generateStepsForTask parse (Responded (Some t)) = fallbackSteps"
    using generate_unparseable by blast
  show "length fallbackSteps = 4"
    by (rule length_fallbackSteps)
  show "length (localSteps (stepsArrived uuid (generateStepsForTask parse CallFailed) s)) = 4"
    by (simp only: generate_failed stepsArrived_installs makeSteps_length length_fallbackSteps)
  show "\<forall>x\<in>set (quickStepsArrived tid uuid (generateStepsForTask parse CallFailed) prev).
      taskId x = tid \<longrightarrow> length (steps x) = 4"
    unfolding generate_failed
    using quickStepsArrived_steps [of _ tid uuid fallbackSteps prev] length_fallbackSteps
    by auto
qed

theorem step_generation_fallback_witness:
  "js ''not json'' \<noteq> [] \<and> exampleParse (cleanJsonString (js ''not json'')) = None \<and>
   generateStepsForTask exampleParse (Responded (Some (js ''not json''))) =
     [js ''Prepare materials'', js ''Focus on the first problem'',
      js ''Continue through the rest'', js ''Review work''] \<and>
   taskId (hd (quickStepsArrived (js ''a'') exampleUuid
      (generateStepsForTask exampleParse CallFailed) focusTasks)) = js ''a'' \<and>
   length (steps (hd (quickStepsArrived (js ''a'') exampleUuid
      (generateStepsForTask exampleParse CallFailed) focusTasks))) = 4"
proof -
  let ?q = "quickStepsArrived (js ''a'') exampleUuid (generateStepsForTask exampleParse CallFailed) focusTasks"
  have n: "js ''not json'' \<noteq> []" by (simp add: js_def)
  have p: "exampleParse (cleanJsonString (js ''not json'')) = None"
    by code_simp
  have i: "taskId (hd ?q) = js ''a''"
    by code_simp
  have "?q \<noteq> []"
    by (simp add: quickStepsArrived_def focusTasks_def)
  then have mem: "hd ?q \<in> set ?q"
    by (rule hd_in_set)
  note t = step_generation_fallback [of exampleParse "js ''not json''" exampleUuid _ "js ''a''" focusTasks]
  from t n p
  have "generateStepsForTask exampleParse (Responded (Some (js ''not json''))) = fallbackSteps"
    by blast
  moreover from t mem i have "length (steps (hd ?q)) = 4"
    by blast
  ultimately show ?thesis using n p i
    by (simp add: fallbackSteps_def)
qed

text \<open>
  C3, the code at an input where it departs from the claim. The session starts on task
  \<open>a\<close>, which has no steps, so the mount asks for steps for \<open>a\<close>. The user marks
  \<open>a\<close> done before the answer arrives: task \<open>b\<close> becomes the active task, with its
  own step, and no new request is made. The answer for \<open>a\<close> then replaces the step
  list of the session, which no longer shows the step of \<open>b\<close>.
\<close>

theorem stale_steps_installed:
  "map_option taskId (stepRequest (initialState focusTasks)) = Some (js ''a'') \<and>
   map_option taskId (currentTask (tasks (mount focusTasks))) = Some (js ''a'') \<and>
   map_option taskId (currentTask (tasks (completeCurrent (mount focusTasks)))) = Some (js ''b'') \<and>
   stepRequest ((mount focusTasks)\<lparr>tasks := handleCompleteTask (js ''a'') focusTasks\<rparr>) = None \<and>
   localSteps (completeCurrent (mount focusTasks)) = [exampleStep ''b1'' ''Do exercise 1'' False] \<and>
   localSteps (stepsArrived exampleUuid [js ''Write an outline'']
       (completeCurrent (mount focusTasks))) = [exampleStep ''u0'' ''Write an outline'' False]"
  by code_simp

end
